theory Spec2Isabelle
  imports Main
begin

section \<open>The value store of main.go\<close>

text \<open>
  The store is a Go map from identifier to \<open>storedValue\<close>, a TTL and a reader/writer
  mutex. Every access to the map happens inside a critical section of that mutex, so each
  critical section is one atomic step on the store; the mutex itself carries no data and is
  not a field of the model.

  Time: \<open>time.Now()\<close> is an input of each operation, the reading of the process's
  monotonic clock in nanoseconds, an \<open>int\<close>. A \<open>time.Duration\<close> is a signed
  number of nanoseconds, an \<open>int\<close> too (a negative TTL is a value the constructor
  accepts). \<open>time.Since(t)\<close> and \<open>now.Sub(t)\<close> are both the difference of two
  readings of that clock, \<open>now - t\<close>.

  The fields \<open>value\<close> and \<open>values\<close> of the source are \<open>value_str\<close> and
  \<open>values_map\<close> here.
\<close>

record storedValue =
  value_str :: string
  timestamp :: int

record ValueStore =
  values_map :: "string \<rightharpoonup> storedValue"
  ttl :: int

text \<open>\<open>NewValueStore\<close>: an empty map and the given TTL (the goroutine it starts is
  \<open>startCleanupRoutine\<close>, modelled below one tick at a time).\<close>

definition NewValueStore :: "int \<Rightarrow> ValueStore" where
  "NewValueStore t = \<lparr>values_map = Map.empty, ttl = t\<rparr>"

text \<open>\<open>Set\<close>: one critical section, \<open>vs.values[id] = storedValue{value, time.Now()}\<close>.\<close>

definition Set :: "ValueStore \<Rightarrow> int \<Rightarrow> string \<Rightarrow> string \<Rightarrow> ValueStore" where
  "Set vs now ident v = vs\<lparr>values_map := (values_map vs)(ident \<mapsto> \<lparr>value_str = v, timestamp = now\<rparr>)\<rparr>"

text \<open>
  \<open>Get\<close> has two critical sections. The first, under the read lock, is the lookup
  \<open>val, exists := vs.values[id]\<close>: \<open>None\<close> is \<open>exists = false\<close>. The second runs only
  on the branch \<open>!exists || time.Since(val.timestamp) > vs.ttl\<close>: under the write lock
  it deletes the key (deleting a key that is not in a Go map does nothing), and the call
  returns the empty string. Otherwise the call returns \<open>val.value\<close> of the snapshot and
  does not touch the map. The result is a Go \<open>string\<close>; there is no second return value.
\<close>

definition Get_lookup :: "ValueStore \<Rightarrow> string \<Rightarrow> storedValue option" where
  "Get_lookup vs ident = values_map vs ident"

definition delete_key :: "ValueStore \<Rightarrow> string \<Rightarrow> ValueStore" where
  "delete_key vs ident = vs\<lparr>values_map := (values_map vs)(ident := None)\<rparr>"

definition Get_finish :: "ValueStore \<Rightarrow> int \<Rightarrow> string \<Rightarrow> storedValue option \<Rightarrow> string \<times> ValueStore" where
  "Get_finish vs now ident snap =
     (case snap of
        None \<Rightarrow> ('''', delete_key vs ident)
      | Some val \<Rightarrow>
          if now - timestamp val > ttl vs then ('''', delete_key vs ident)
          else (value_str val, vs))"

text \<open>A call of \<open>Get\<close> that no other goroutine interleaves with.\<close>

definition Get :: "ValueStore \<Rightarrow> int \<Rightarrow> string \<Rightarrow> string \<times> ValueStore" where
  "Get vs now ident = Get_finish vs now ident (Get_lookup vs ident)"

text \<open>
  The only not-found signal of the program is the test of the GET handler on the result of
  \<open>Get\<close>: \<open>if val == ""\<close> answers 404, anything else is answered 200 with the value.
\<close>

definition found :: "string \<Rightarrow> bool" where
  "found val = (val \<noteq> '''')"

text \<open>
  One tick of \<open>startCleanupRoutine\<close>: \<open>now\<close> is read once, then, in one critical section,
  \<open>for id, val := range vs.values\<close> deletes the keys whose entry is older than the TTL.
  Go leaves the order of a map iteration open: \<open>ks\<close> is the order in which this tick
  meets the keys. A key that was removed before the iteration reaches it is not produced
  (the \<open>None\<close> case).
\<close>

definition sweep_step :: "int \<Rightarrow> int \<Rightarrow> string \<Rightarrow> (string \<rightharpoonup> storedValue) \<Rightarrow> (string \<rightharpoonup> storedValue)" where
  "sweep_step now t ident m =
     (case m ident of
        None \<Rightarrow> m
      | Some val \<Rightarrow> if now - timestamp val > t then m(ident := None) else m)"

definition cleanup_tick :: "ValueStore \<Rightarrow> int \<Rightarrow> string list \<Rightarrow> ValueStore" where
  "cleanup_tick vs now ks = vs\<lparr>values_map := fold (sweep_step now (ttl vs)) ks (values_map vs)\<rparr>"

section \<open>Basic facts\<close>

lemma delete_key_absent: "values_map vs ident = None \<Longrightarrow> delete_key vs ident = vs"
  by (simp add: delete_key_def fun_upd_idem)

lemma values_delete_key: "values_map (delete_key vs ident) = (values_map vs)(ident := None)"
  by (simp add: delete_key_def)

lemma ttl_delete_key: "ttl (delete_key vs ident) = ttl vs"
  by (simp add: delete_key_def)

lemma Get_result:
  "fst (Get vs now ident) =
     (case values_map vs ident of
        None \<Rightarrow> ''''
      | Some e \<Rightarrow> if now - timestamp e > ttl vs then '''' else value_str e)"
  by (simp add: Get_def Get_finish_def Get_lookup_def split: option.split)

lemma Get_state:
  "snd (Get vs now ident) =
     (case values_map vs ident of
        None \<Rightarrow> vs
      | Some e \<Rightarrow> if now - timestamp e > ttl vs then delete_key vs ident else vs)"
  by (simp add: Get_def Get_finish_def Get_lookup_def delete_key_absent split: option.split)

section \<open>Reading an identifier that was never written\<close>

text \<open>
  Claim C8. When the map holds no entry for \<open>id\<close>, \<open>Get(id)\<close> returns the empty
  string, which the caller reads as not found. This is so in particular for every
  identifier in a store fresh from \<open>NewValueStore\<close>.
\<close>

theorem Get_absent:
  "values_map vs ident = None \<Longrightarrow> fst (Get vs now ident) = '''' \<and> \<not> found (fst (Get vs now ident))"
  by (simp add: Get_result found_def)

theorem Get_absent_witness:
  "values_map (NewValueStore 10) ''note1'' = None
   \<and> fst (Get (NewValueStore 10) 3 ''note1'') = ''''
   \<and> \<not> found (fst (Get (NewValueStore 10) 3 ''note1''))"
proof -
  have absent: "values_map (NewValueStore 10) ''note1'' = None"
    by (simp add: NewValueStore_def)
  from Get_absent [OF absent, of 3] absent show ?thesis
    by blast
qed

section \<open>Reading an expired entry\<close>

text \<open>
  Claim C4. When the map holds an entry for \<open>id\<close> whose age \<open>now - timestamp\<close> is
  strictly greater than the TTL, \<open>Get(id)\<close> returns the empty string (not found) and
  the same call removes the entry of \<open>id\<close> and nothing else: the store after the call
  is the store before it with the key \<open>id\<close> deleted. So afterwards the map holds no
  entry for \<open>id\<close>, every other key has the entry it had, and the TTL is unchanged.
\<close>

theorem Get_expired_deletes:
  "values_map vs ident = Some e \<Longrightarrow> ttl vs < now - timestamp e \<Longrightarrow>
     Get vs now ident = ('''', vs\<lparr>values_map := (values_map vs)(ident := None)\<rparr>)
     \<and> \<not> found (fst (Get vs now ident))
     \<and> values_map (snd (Get vs now ident)) ident = None
     \<and> (\<forall>k. k \<noteq> ident \<longrightarrow> values_map (snd (Get vs now ident)) k = values_map vs k)
     \<and> ttl (snd (Get vs now ident)) = ttl vs"
proof -
  assume present: "values_map vs ident = Some e" and old: "ttl vs < now - timestamp e"
  have result: "fst (Get vs now ident) = ''''"
    using present old by (simp add: Get_result)
  have state: "snd (Get vs now ident) = vs\<lparr>values_map := (values_map vs)(ident := None)\<rparr>"
    using present old by (simp add: Get_state delete_key_def)
  have whole: "Get vs now ident = ('''', vs\<lparr>values_map := (values_map vs)(ident := None)\<rparr>)"
    using result state by (simp add: prod_eq_iff)
  have not_found: "\<not> found (fst (Get vs now ident))"
    using result by (simp add: found_def)
  have gone: "values_map (snd (Get vs now ident)) ident = None"
    by (simp add: state)
  have others: "\<forall>k. k \<noteq> ident \<longrightarrow> values_map (snd (Get vs now ident)) k = values_map vs k"
    by (simp add: state)
  have same_ttl: "ttl (snd (Get vs now ident)) = ttl vs"
    by (simp add: state)
  show ?thesis
    by (rule conjI [OF whole conjI [OF not_found conjI [OF gone conjI [OF others same_ttl]]]])
qed

theorem Get_expired_deletes_witness:
  "values_map (Set (Set (NewValueStore 10) 0 ''note1'' ''hello'') 8 ''note2'' ''world'') ''note1''
     = Some \<lparr>value_str = ''hello'', timestamp = 0\<rparr>
   \<and> ttl (Set (Set (NewValueStore 10) 0 ''note1'' ''hello'') 8 ''note2'' ''world'')
       < 11 - timestamp \<lparr>value_str = ''hello'', timestamp = 0\<rparr>
   \<and> ''note2'' \<noteq> ''note1''
   \<and> fst (Get (Set (Set (NewValueStore 10) 0 ''note1'' ''hello'') 8 ''note2'' ''world'') 11 ''note1'') = ''''
   \<and> values_map (snd (Get (Set (Set (NewValueStore 10) 0 ''note1'' ''hello'') 8 ''note2'' ''world'') 11 ''note1''))
        ''note1''
     = None
   \<and> values_map (snd (Get (Set (Set (NewValueStore 10) 0 ''note1'' ''hello'') 8 ''note2'' ''world'') 11 ''note1''))
        ''note2''
     = Some \<lparr>value_str = ''world'', timestamp = 8\<rparr>
   \<and> ttl (snd (Get (Set (Set (NewValueStore 10) 0 ''note1'' ''hello'') 8 ''note2'' ''world'') 11 ''note1''))
     = 10"
proof -
  let ?vs = "Set (Set (NewValueStore 10) 0 ''note1'' ''hello'') 8 ''note2'' ''world''"
  let ?e = "\<lparr>value_str = ''hello'', timestamp = 0\<rparr>"
  have present: "values_map ?vs ''note1'' = Some ?e"
    by (simp add: Set_def NewValueStore_def)
  have old: "ttl ?vs < 11 - timestamp ?e"
    by (simp add: Set_def NewValueStore_def)
  have other: "''note2'' \<noteq> ''note1''"
    by simp
  have before: "values_map ?vs ''note2'' = Some \<lparr>value_str = ''world'', timestamp = 8\<rparr>"
    by (simp add: Set_def NewValueStore_def)
  have ten: "ttl ?vs = 10"
    by (simp add: Set_def NewValueStore_def)
  have whole: "Get ?vs 11 ''note1'' = ('''', ?vs\<lparr>values_map := (values_map ?vs)(''note1'' := None)\<rparr>)"
    using Get_expired_deletes [OF present old] by (rule conjunct1)
  have result: "fst (Get ?vs 11 ''note1'') = ''''"
    by (simp add: whole)
  have gone: "values_map (snd (Get ?vs 11 ''note1'')) ''note1'' = None"
    by (simp add: whole)
  have kept: "values_map (snd (Get ?vs 11 ''note1'')) ''note2'' = Some \<lparr>value_str = ''world'', timestamp = 8\<rparr>"
    by (simp add: whole before)
  have same_ttl: "ttl (snd (Get ?vs 11 ''note1'')) = 10"
    by (simp add: whole ten)
  show ?thesis
    by (rule conjI [OF present conjI [OF old conjI [OF other conjI [OF result
          conjI [OF gone conjI [OF kept same_ttl]]]]]])
qed

section \<open>Reading a live entry\<close>

text \<open>
  Claim C9. When the map holds an entry for \<open>id\<close> whose age is at most the TTL,
  \<open>Get(id)\<close> returns the store exactly as it was: the entry keeps its value and its
  timestamp (a read does not extend the life of the entry), every other entry and the
  TTL are as before. The call returns the value of the entry.
\<close>

theorem Get_live_unchanged:
  "values_map vs ident = Some e \<Longrightarrow> now - timestamp e \<le> ttl vs \<Longrightarrow>
     snd (Get vs now ident) = vs \<and> fst (Get vs now ident) = value_str e"
  by (simp add: Get_result Get_state)

theorem Get_live_unchanged_witness:
  "values_map (Set (NewValueStore 10) 0 ''note1'' ''hello'') ''note1''
     = Some \<lparr>value_str = ''hello'', timestamp = 0\<rparr>
   \<and> 10 - timestamp \<lparr>value_str = ''hello'', timestamp = 0\<rparr> \<le> ttl (Set (NewValueStore 10) 0 ''note1'' ''hello'')
   \<and> snd (Get (Set (NewValueStore 10) 0 ''note1'' ''hello'') 10 ''note1'')
     = Set (NewValueStore 10) 0 ''note1'' ''hello''
   \<and> fst (Get (Set (NewValueStore 10) 0 ''note1'' ''hello'') 10 ''note1'') = ''hello''"
proof -
  let ?vs = "Set (NewValueStore 10) 0 ''note1'' ''hello''"
  let ?e = "\<lparr>value_str = ''hello'', timestamp = 0\<rparr>"
  have present: "values_map ?vs ''note1'' = Some ?e"
    by (simp add: Set_def NewValueStore_def)
  have young: "10 - timestamp ?e \<le> ttl ?vs"
    by (simp add: Set_def NewValueStore_def)
  from Get_live_unchanged [OF present young] present young show ?thesis
    by simp
qed

section \<open>Reading twice\<close>

text \<open>
  Claim C10. At a fixed clock reading, a second \<open>Get(id)\<close> right after the first one
  returns the same string and leaves the store as the first call left it: the store after
  one \<open>Get(id)\<close> is a fixed point of \<open>Get(id)\<close>.
\<close>

theorem Get_idempotent:
  "Get (snd (Get vs now ident)) now ident = Get vs now ident"
proof (cases "values_map vs ident")
  case None
  then have "snd (Get vs now ident) = vs"
    by (simp add: Get_state)
  then show ?thesis
    by simp
next
  case (Some e)
  show ?thesis
  proof (cases "ttl vs < now - timestamp e")
    case True
    with Some have after: "snd (Get vs now ident) = delete_key vs ident"
      by (simp add: Get_state)
    have gone: "values_map (delete_key vs ident) ident = None"
      by (simp add: values_delete_key)
    have "fst (Get (delete_key vs ident) now ident) = fst (Get vs now ident)"
      using Some True gone by (simp add: Get_result)
    moreover have "snd (Get (delete_key vs ident) now ident) = snd (Get vs now ident)"
      using gone after by (simp add: Get_state)
    ultimately show ?thesis
      using after by (simp add: prod_eq_iff)
  next
    case False
    with Some have "snd (Get vs now ident) = vs"
      by (simp add: Get_state)
    then show ?thesis
      by simp
  qed
qed

section \<open>Expiry is decided by the read\<close>

text \<open>
  Claim C3. In every store state (so in every state that \<open>Set\<close>, \<open>Get\<close> and sweep
  ticks can reach), at every clock reading and for every identifier, \<open>Get\<close> returns
  either the empty string (absent) or the value of an entry of that identifier whose age
  is at most the TTL; it never returns the value of an entry older than the TTL, whether
  or not a sweep has run. After the call, an entry that the map still holds for the
  identifier is live.
\<close>

theorem Get_only_live_or_absent:
  "(fst (Get vs now ident) = ''''
      \<or> (\<exists>e. values_map vs ident = Some e \<and> now - timestamp e \<le> ttl vs
              \<and> fst (Get vs now ident) = value_str e))
   \<and> (\<forall>e. values_map (snd (Get vs now ident)) ident = Some e \<longrightarrow> now - timestamp e \<le> ttl vs)"
proof (cases "values_map vs ident")
  case None
  then show ?thesis
    by (simp add: Get_result Get_state)
next
  case (Some e)
  then show ?thesis
    by (cases "ttl vs < now - timestamp e") (simp_all add: Get_result Get_state values_delete_key)
qed

theorem Get_only_live_or_absent_witness:
  "values_map (snd (Get (Set (NewValueStore 10) 0 ''note1'' ''hello'') 7 ''note1'')) ''note1''
     = Some \<lparr>value_str = ''hello'', timestamp = 0\<rparr>
   \<and> 7 - timestamp \<lparr>value_str = ''hello'', timestamp = 0\<rparr> \<le> ttl (Set (NewValueStore 10) 0 ''note1'' ''hello'')
   \<and> fst (Get (Set (NewValueStore 10) 0 ''note1'' ''hello'') 7 ''note1'') = ''hello''
   \<and> fst (Get (Set (NewValueStore 10) 0 ''note1'' ''hello'') 11 ''note1'') = ''''"
proof -
  let ?vs = "Set (NewValueStore 10) 0 ''note1'' ''hello''"
  let ?e = "\<lparr>value_str = ''hello'', timestamp = 0\<rparr>"
  have kept: "values_map (snd (Get ?vs 7 ''note1'')) ''note1'' = Some ?e"
    by (simp add: Get_state Set_def NewValueStore_def)
  have live: "7 - timestamp ?e \<le> ttl ?vs"
    using Get_only_live_or_absent [of ?vs 7 "''note1''"] kept by blast
  have early: "fst (Get ?vs 7 ''note1'') = ''hello''"
    by (simp add: Get_result Set_def NewValueStore_def)
  have late: "fst (Get ?vs 11 ''note1'') = ''''"
    by (simp add: Get_result Set_def NewValueStore_def)
  from kept live early late show ?thesis
    by blast
qed

section \<open>Writing, then reading\<close>

lemma Get_after_Set:
  "fst (Get (Set vs t0 ident v) t ident) = (if t - t0 \<le> ttl vs then v else '''')"
  by (simp add: Get_result Set_def)

text \<open>
  Claim C1, as amended. After \<open>Set(id, v)\<close>, a \<open>Get(id)\<close> at which the age of the
  entry is at most the TTL returns \<open>v\<close>, whatever string \<open>v\<close> is. \<open>Get\<close> has no
  found flag: the caller takes the result as present exactly when it is not the empty
  string, so the value is reported as present when \<open>v\<close> is not empty (the POST handler
  never passes an empty value to \<open>Set\<close>).
\<close>

theorem Set_then_Get:
  "t - t0 \<le> ttl vs \<Longrightarrow>
     fst (Get (Set vs t0 ident v) t ident) = v
     \<and> (found (fst (Get (Set vs t0 ident v) t ident)) \<longleftrightarrow> v \<noteq> '''')"
  by (simp add: Get_after_Set found_def)

theorem Set_then_Get_witness:
  "(5::int) - 5 \<le> ttl (NewValueStore 10)
   \<and> fst (Get (Set (NewValueStore 10) 5 ''note1'' ''hello'') 5 ''note1'') = ''hello''
   \<and> found (fst (Get (Set (NewValueStore 10) 5 ''note1'' ''hello'') 5 ''note1''))"
proof -
  have fresh: "(5::int) - 5 \<le> ttl (NewValueStore 10)"
    by (simp add: NewValueStore_def)
  have nonempty: "''hello'' \<noteq> ''''"
    by simp
  from Set_then_Get [OF fresh, of "''note1''" "''hello''"] fresh nonempty show ?thesis
    by blast
qed

text \<open>
  The claim as the specification states it fails at the empty value: \<open>Set(id, "")\<close>
  followed at once by \<open>Get(id)\<close> is not reported as present, and the result is the one
  of a \<open>Get\<close> on a store that never held the identifier.
\<close>

theorem Set_then_Get_empty_value_not_found:
  "\<not> found (fst (Get (Set (NewValueStore 10) 5 ''note1'' '''') 5 ''note1''))
   \<and> fst (Get (Set (NewValueStore 10) 5 ''note1'' '''') 5 ''note1'')
     = fst (Get (NewValueStore 10) 5 ''note1'')"
  by (simp add: Get_result Set_def NewValueStore_def found_def)

section \<open>The TTL boundary\<close>

text \<open>
  Claim C2. Let \<open>id\<close> be set at clock reading \<open>t0\<close> (the claim takes \<open>t0 = 0\<close>) with
  value \<open>v\<close> in a store of TTL \<open>T\<close>. A \<open>Get(id)\<close> at reading \<open>t\<close> returns \<open>v\<close>
  when the age \<open>t - t0\<close> is at most \<open>T\<close>, so strictly before \<open>T\<close> and at exactly
  \<open>T\<close>, and returns the empty string, which is read as not found, when the age is
  strictly greater than \<open>T\<close>.
\<close>

theorem Get_ttl_boundary:
  "(t - t0 \<le> ttl vs \<longrightarrow> fst (Get (Set vs t0 ident v) t ident) = v)
   \<and> (ttl vs < t - t0 \<longrightarrow>
        fst (Get (Set vs t0 ident v) t ident) = ''''
        \<and> \<not> found (fst (Get (Set vs t0 ident v) t ident)))"
  by (simp add: Get_after_Set found_def)

theorem Get_ttl_boundary_witness:
  "(9::int) - 0 \<le> ttl (NewValueStore 10)
   \<and> fst (Get (Set (NewValueStore 10) 0 ''note1'' ''hello'') 9 ''note1'') = ''hello''
   \<and> (10::int) - 0 \<le> ttl (NewValueStore 10)
   \<and> fst (Get (Set (NewValueStore 10) 0 ''note1'' ''hello'') 10 ''note1'') = ''hello''
   \<and> ttl (NewValueStore 10) < (11::int) - 0
   \<and> fst (Get (Set (NewValueStore 10) 0 ''note1'' ''hello'') 11 ''note1'') = ''''
   \<and> \<not> found (fst (Get (Set (NewValueStore 10) 0 ''note1'' ''hello'') 11 ''note1''))"
proof -
  have before: "(9::int) - 0 \<le> ttl (NewValueStore 10)"
    and at: "(10::int) - 0 \<le> ttl (NewValueStore 10)"
    and after: "ttl (NewValueStore 10) < (11::int) - 0"
    by (simp_all add: NewValueStore_def)
  from Get_ttl_boundary [of 9 0 "NewValueStore 10" "''note1''" "''hello''"]
       Get_ttl_boundary [of 10 0 "NewValueStore 10" "''note1''" "''hello''"]
       Get_ttl_boundary [of 11 0 "NewValueStore 10" "''note1''" "''hello''"]
       before at after
  show ?thesis
    by blast
qed

section \<open>Overwriting\<close>

text \<open>
  Claim C7. \<open>Set(id, v1)\<close> followed by \<open>Set(id, v2)\<close> leaves the store that
  \<open>Set(id, v2)\<close> alone would have left: the entry of \<open>id\<close> is \<open>v2\<close> with the
  timestamp of the second call, nothing of the first call remains. A later \<open>Get(id)\<close>
  returns \<open>v2\<close> as long as the age counted from the second \<open>Set\<close> is at most the TTL,
  however long ago the first \<open>Set\<close> was.
\<close>

theorem Set_overwrite:
  "t - t2 \<le> ttl vs \<Longrightarrow>
     fst (Get (Set (Set vs t1 ident v1) t2 ident v2) t ident) = v2
     \<and> Set (Set vs t1 ident v1) t2 ident v2 = Set vs t2 ident v2
     \<and> values_map (Set (Set vs t1 ident v1) t2 ident v2) ident
       = Some \<lparr>value_str = v2, timestamp = t2\<rparr>"
proof -
  assume young: "t - t2 \<le> ttl vs"
  have same: "Set (Set vs t1 ident v1) t2 ident v2 = Set vs t2 ident v2"
    by (simp add: Set_def)
  have entry: "values_map (Set vs t2 ident v2) ident = Some \<lparr>value_str = v2, timestamp = t2\<rparr>"
    by (simp add: Set_def)
  have "fst (Get (Set vs t2 ident v2) t ident) = v2"
    using young by (simp add: Get_after_Set)
  with same entry show ?thesis
    by simp
qed

theorem Set_overwrite_witness:
  "(1009::int) - 1000 \<le> ttl (NewValueStore 10)
   \<and> fst (Get (Set (Set (NewValueStore 10) 0 ''note1'' ''old'') 1000 ''note1'' ''new'') 1009 ''note1'')
     = ''new''
   \<and> values_map (Set (Set (NewValueStore 10) 0 ''note1'' ''old'') 1000 ''note1'' ''new'') ''note1''
     = Some \<lparr>value_str = ''new'', timestamp = 1000\<rparr>"
proof -
  have young: "(1009::int) - 1000 \<le> ttl (NewValueStore 10)"
    by (simp add: NewValueStore_def)
  from Set_overwrite [OF young, of 0 "''note1''" "''old''" "''new''"] young show ?thesis
    by blast
qed

section \<open>One tick of the sweep\<close>

lemma sweep_step_apply:
  "sweep_step now t a m k =
     (if k = a
      then (case m k of None \<Rightarrow> None | Some e \<Rightarrow> if t < now - timestamp e then None else Some e)
      else m k)"
  by (simp add: sweep_step_def split: option.split)

lemma fold_sweep_step:
  "fold (sweep_step now t) ks m k =
     (if k \<in> set ks
      then (case m k of None \<Rightarrow> None | Some e \<Rightarrow> if t < now - timestamp e then None else Some e)
      else m k)"
proof (induction ks arbitrary: m)
  case Nil
  show ?case
    by simp
next
  case (Cons a ks)
  let ?m' = "sweep_step now t a m"
  have "fold (sweep_step now t) (a # ks) m k = fold (sweep_step now t) ks ?m' k"
    by simp
  also have "\<dots> =
     (if k \<in> set ks
      then (case ?m' k of None \<Rightarrow> None | Some e \<Rightarrow> if t < now - timestamp e then None else Some e)
      else ?m' k)"
    by (rule Cons.IH)
  also have "\<dots> =
     (if k \<in> set (a # ks)
      then (case m k of None \<Rightarrow> None | Some e \<Rightarrow> if t < now - timestamp e then None else Some e)
      else m k)"
    by (cases "m k") (auto simp add: sweep_step_apply)
  finally show ?case .
qed

lemma values_cleanup_tick:
  "set ks = dom (values_map vs) \<Longrightarrow>
     values_map (cleanup_tick vs now ks) k =
       (case values_map vs k of
          None \<Rightarrow> None
        | Some e \<Rightarrow> if ttl vs < now - timestamp e then None else Some e)"
  by (auto simp add: cleanup_tick_def fold_sweep_step split: option.split)

lemma ttl_cleanup_tick: "ttl (cleanup_tick vs now ks) = ttl vs"
  by (simp add: cleanup_tick_def)

text \<open>
  Claim C6. Let \<open>ks\<close> be the order in which the tick's iteration meets the keys of the
  map. The tick at clock reading \<open>now\<close> removes the entries whose age exceeds the TTL
  and no other: every expired entry is gone, every live entry is in the map with the same
  value and timestamp, no key appears, and the TTL is unchanged. A \<open>Get\<close> at the
  reading of the tick or later returns the same string with or without the tick.
\<close>

theorem cleanup_tick_exact:
  "set ks = dom (values_map vs) \<Longrightarrow>
     (\<forall>k e. values_map vs k = Some e \<and> ttl vs < now - timestamp e
            \<longrightarrow> values_map (cleanup_tick vs now ks) k = None)
     \<and> (\<forall>k e. values_map vs k = Some e \<and> now - timestamp e \<le> ttl vs
            \<longrightarrow> values_map (cleanup_tick vs now ks) k = Some e)
     \<and> (\<forall>k. values_map vs k = None \<longrightarrow> values_map (cleanup_tick vs now ks) k = None)
     \<and> ttl (cleanup_tick vs now ks) = ttl vs
     \<and> (\<forall>t k. now \<le> t \<longrightarrow> fst (Get (cleanup_tick vs now ks) t k) = fst (Get vs t k))"
proof -
  assume enum: "set ks = dom (values_map vs)"
  have expired: "values_map (cleanup_tick vs now ks) k = None"
    if "values_map vs k = Some e" and "ttl vs < now - timestamp e" for k e
    using that by (simp add: values_cleanup_tick [OF enum])
  have live: "values_map (cleanup_tick vs now ks) k = Some e"
    if "values_map vs k = Some e" and "now - timestamp e \<le> ttl vs" for k e
    using that by (simp add: values_cleanup_tick [OF enum])
  have absent: "values_map (cleanup_tick vs now ks) k = None"
    if "values_map vs k = None" for k
    using that by (simp add: values_cleanup_tick [OF enum])
  have reads: "fst (Get (cleanup_tick vs now ks) t k) = fst (Get vs t k)"
    if "now \<le> t" for t k
    using that
    by (simp add: Get_result values_cleanup_tick [OF enum] ttl_cleanup_tick split: option.split)
  from expired live absent reads show ?thesis
    by (simp add: ttl_cleanup_tick)
qed

theorem cleanup_tick_exact_witness:
  "set [''b'', ''a''] = dom (values_map (Set (Set (NewValueStore 10) 0 ''a'' ''old'') 8 ''b'' ''new''))
   \<and> values_map (cleanup_tick (Set (Set (NewValueStore 10) 0 ''a'' ''old'') 8 ''b'' ''new'') 11 [''b'', ''a'']) ''a''
     = None
   \<and> values_map (cleanup_tick (Set (Set (NewValueStore 10) 0 ''a'' ''old'') 8 ''b'' ''new'') 11 [''b'', ''a'']) ''b''
     = Some \<lparr>value_str = ''new'', timestamp = 8\<rparr>
   \<and> fst (Get (cleanup_tick (Set (Set (NewValueStore 10) 0 ''a'' ''old'') 8 ''b'' ''new'') 11 [''b'', ''a'']) 12 ''b'')
     = fst (Get (Set (Set (NewValueStore 10) 0 ''a'' ''old'') 8 ''b'' ''new'') 12 ''b'')"
proof -
  let ?vs = "Set (Set (NewValueStore 10) 0 ''a'' ''old'') 8 ''b'' ''new''"
  have enum: "set [''b'', ''a''] = dom (values_map ?vs)"
    by (simp add: Set_def NewValueStore_def)
  have a: "values_map ?vs ''a'' = Some \<lparr>value_str = ''old'', timestamp = 0\<rparr>"
    and a_old: "ttl ?vs < 11 - timestamp \<lparr>value_str = ''old'', timestamp = 0\<rparr>"
    and b: "values_map ?vs ''b'' = Some \<lparr>value_str = ''new'', timestamp = 8\<rparr>"
    and b_young: "11 - timestamp \<lparr>value_str = ''new'', timestamp = 8\<rparr> \<le> ttl ?vs"
    and later: "(11::int) \<le> 12"
    by (simp_all add: Set_def NewValueStore_def)
  note tick = cleanup_tick_exact [OF enum, of 11]
  from tick a a_old have "values_map (cleanup_tick ?vs 11 [''b'', ''a'']) ''a'' = None"
    by blast
  moreover from tick b b_young
  have "values_map (cleanup_tick ?vs 11 [''b'', ''a'']) ''b'' = Some \<lparr>value_str = ''new'', timestamp = 8\<rparr>"
    by blast
  moreover from tick later
  have "fst (Get (cleanup_tick ?vs 11 [''b'', ''a'']) 12 ''b'') = fst (Get ?vs 12 ''b'')"
    by blast
  ultimately show ?thesis
    using enum by blast
qed

section \<open>A write between the two critical sections of Get\<close>

text \<open>
  Claim C5 asks that the deletion in \<open>Get\<close> never removes an entry that another
  goroutine wrote after \<open>Get\<close> took its snapshot. The deletion of the source is
  unconditional. Here the store has TTL 10 and holds \<open>note1\<close> written at reading 0.
  A \<open>Get(note1)\<close> takes its snapshot, then a \<open>Set(note1, new)\<close> at reading 20 runs,
  then the \<open>Get\<close> goes on at reading 20 with its stale snapshot: it returns the empty
  string and removes the entry written at reading 20, which a \<open>Get\<close> on its own at that
  reading would have returned. The tick of the sweep, in contrast, tests and deletes inside
  one critical section.
\<close>

theorem Get_race_deletes_newer_entry:
  "values_map (Set (Set (NewValueStore 10) 0 ''note1'' ''old'') 20 ''note1'' ''new'') ''note1''
     = Some \<lparr>value_str = ''new'', timestamp = 20\<rparr>
   \<and> fst (Get (Set (Set (NewValueStore 10) 0 ''note1'' ''old'') 20 ''note1'' ''new'') 20 ''note1'')
     = ''new''
   \<and> fst (Get_finish (Set (Set (NewValueStore 10) 0 ''note1'' ''old'') 20 ''note1'' ''new'') 20 ''note1''
             (Get_lookup (Set (NewValueStore 10) 0 ''note1'' ''old'') ''note1''))
     = ''''
   \<and> values_map
        (snd (Get_finish (Set (Set (NewValueStore 10) 0 ''note1'' ''old'') 20 ''note1'' ''new'') 20 ''note1''
                (Get_lookup (Set (NewValueStore 10) 0 ''note1'' ''old'') ''note1'')))
        ''note1''
     = None"
  by (simp add: Get_def Get_finish_def Get_lookup_def delete_key_def Set_def NewValueStore_def)

end
